theory Spec2Isabelle
  imports Main
begin

section \<open>Data model\<close>

text \<open>
  The backend keeps three MongoDB collections (users, friend requests, messages) and one
  process-local presence map. A collection is modelled as the list of its documents in
  natural (insertion) order, an ObjectId as the string it prints as, and a Date as an
  integer number of milliseconds. Identifiers are taken to be well-formed ObjectId
  strings; failures of the storage connection are outside the model.
\<close>

type_synonym object_id = string
type_synonym date = int

text \<open>The fields of a User document that the routes read or write.\<close>

record user =
  uid :: object_id
  username :: string
  email :: string
  avatar :: string
  bio :: string
  status :: string
  lastSeen :: date
  friends :: "object_id list"

text \<open>models/FriendRequest.js: \<^verbatim>\<open>status\<close> is an enum with default \<^verbatim>\<open>pending\<close>.\<close>

datatype request_status = Pending | Accepted | Rejected

record friend_request =
  rid :: object_id
  req_sender :: object_id
  req_recipient :: object_id
  req_status :: request_status
  req_message :: string
  req_createdAt :: date
  req_updatedAt :: date

text \<open>models/Message.js.\<close>

record message =
  mid :: object_id
  sender :: object_id
  recipient :: object_id
  content :: string
  messageType :: string
  isRead :: bool
  readAt :: "date option"
  isEdited :: bool
  editedAt :: "date option"
  createdAt :: date

record db =
  users :: "user list"
  requests :: "friend_request list"
  messages :: "message list"

text \<open>
  Every route answers a failure with \<^verbatim>\<open>res.status(code).json({success: false, message})\<close>;
  the error value keeps the status code and the message.
\<close>

datatype error = Err nat string

subsection \<open>Storage operations\<close>

text \<open>\<^verbatim>\<open>findOne\<close>: the first document, in natural order, that satisfies the filter.\<close>

definition find_one :: "('a \<Rightarrow> bool) \<Rightarrow> 'a list \<Rightarrow> 'a option" where
  "find_one p docs = List.find p docs"

text \<open>\<^verbatim>\<open>updateOne\<close> / \<^verbatim>\<open>findOneAndUpdate\<close> / \<^verbatim>\<open>save\<close> of a loaded document: the first
  document that satisfies the filter is rewritten, the others are left alone.\<close>

fun update_one :: "('a \<Rightarrow> bool) \<Rightarrow> ('a \<Rightarrow> 'a) \<Rightarrow> 'a list \<Rightarrow> 'a list" where
  "update_one p f [] = []"
| "update_one p f (d # docs) = (if p d then f d # docs else d # update_one p f docs)"

text \<open>\<^verbatim>\<open>updateMany\<close>: every document that satisfies the filter is rewritten.\<close>

definition update_many :: "('a \<Rightarrow> bool) \<Rightarrow> ('a \<Rightarrow> 'a) \<Rightarrow> 'a list \<Rightarrow> 'a list" where
  "update_many p f docs = map (\<lambda>d. if p d then f d else d) docs"

definition findById :: "user list \<Rightarrow> object_id \<Rightarrow> user option" where
  "findById us i = find_one (\<lambda>u. uid u = i) us"

section \<open>routes/users.js\<close>

subsection \<open>PUT /api/users/status\<close>

text \<open>
  \<^verbatim>\<open>req.user\<close> is the document the authentication middleware loaded; assigning
  \<^verbatim>\<open>status\<close> and \<^verbatim>\<open>lastSeen\<close> and calling \<^verbatim>\<open>save()\<close> writes those two
  modified paths to the stored document with the same \<^verbatim>\<open>_id\<close>. The body's
  \<^verbatim>\<open>status\<close> may be absent (\<open>None\<close>).
\<close>

definition valid_statuses :: "string list" where
  "valid_statuses = [''online'', ''offline'', ''away'']"

definition update_status :: "db \<Rightarrow> user \<Rightarrow> string option \<Rightarrow> date \<Rightarrow> (error + string) \<times> db" where
  "update_status d req_user body_status now =
     (case body_status of
        None \<Rightarrow> (Inl (Err 400 ''Invalid status. Must be online, offline, or away''), d)
      | Some s \<Rightarrow>
          if s \<notin> set valid_statuses
          then (Inl (Err 400 ''Invalid status. Must be online, offline, or away''), d)
          else (Inr s,
                d\<lparr>users := update_one (\<lambda>u. uid u = uid req_user)
                                      (\<lambda>u. u\<lparr>status := s, lastSeen := now\<rparr>) (users d)\<rparr>))"

subsection \<open>GET /api/users/search\<close>

text \<open>
  \<^verbatim>\<open>String.prototype.trim\<close> removes white space and line terminators from both ends; of
  the characters of the string type used here these are tab, line feed, vertical tab, form
  feed, carriage return, space and no-break space.
\<close>

definition is_space :: "char \<Rightarrow> bool" where
  "is_space c = (c \<in> set [CHR 0x09, CHR 0x0A, CHR 0x0B, CHR 0x0C, CHR 0x0D, CHR 0x20, CHR 0xA0])"

definition trim :: "string \<Rightarrow> string" where
  "trim s = rev (dropWhile is_space (rev (dropWhile is_space s)))"

text \<open>
  The projection \<^verbatim>\<open>select('username email avatar bio status lastSeen')\<close>, which keeps
  \<^verbatim>\<open>_id\<close>.
\<close>

record profile =
  p_id :: object_id
  p_username :: string
  p_email :: string
  p_avatar :: string
  p_bio :: string
  p_status :: string
  p_lastSeen :: date

definition select_profile :: "user \<Rightarrow> profile" where
  "select_profile u = \<lparr>p_id = uid u, p_username = username u, p_email = email u,
     p_avatar = avatar u, p_bio = bio u, p_status = status u, p_lastSeen = lastSeen u\<rparr>"

text \<open>
  The handler hands the trimmed query to the storage engine as the pattern of
  \<^verbatim>\<open>{ $regex: ..., $options: 'i' }\<close>. The engine's regular-expression matcher is a
  parameter of the model: \<open>rx_valid p\<close> says that the engine accepts \<open>p\<close> as a pattern
  (it raises an error otherwise, which the handler's \<^verbatim>\<open>catch\<close> answers with 500), and
  \<open>rx_match p s\<close> that the pattern \<open>p\<close>, case-insensitively, matches somewhere in \<open>s\<close>.
  The query parameter may be absent.
\<close>

definition search_users ::
  "(string \<Rightarrow> bool) \<Rightarrow> (string \<Rightarrow> string \<Rightarrow> bool) \<Rightarrow> db \<Rightarrow> user \<Rightarrow> string option \<Rightarrow> error + profile list" where
  "search_users rx_valid rx_match d req_user query =
     (case query of
        None \<Rightarrow> Inl (Err 400 ''Search query must be at least 2 characters long'')
      | Some q \<Rightarrow>
          if q = [] \<or> length (trim q) < 2
          then Inl (Err 400 ''Search query must be at least 2 characters long'')
          else if \<not> rx_valid (trim q) then Inl (Err 500 ''Server error'')
          else Inr (take 20 (map select_profile
                 (filter (\<lambda>u. rx_match (trim q) (username u) \<and> uid u \<noteq> uid req_user) (users d)))))"

section \<open>models/FriendRequest.js\<close>

text \<open>
  The schema declares \<^verbatim>\<open>index({ sender: 1, recipient: 1 }, { unique: true })\<close>: an insert
  whose ordered (sender, recipient) pair is already the pair of a stored request, whatever
  that request's status, is refused by the storage layer with a duplicate-key error. The
  \<^verbatim>\<open>_id\<close> index is unique as well. \<^verbatim>\<open>message\<close> has \<^verbatim>\<open>maxlength: 200\<close>, checked
  by \<^verbatim>\<open>save()\<close> before the insert.
\<close>

datatype save_error = ValidationError | DuplicateKey

definition insert_request :: "friend_request list \<Rightarrow> friend_request \<Rightarrow> save_error + friend_request list" where
  "insert_request rs r =
     (if length (req_message r) > 200 then Inl ValidationError
      else if \<exists>x \<in> set rs. rid x = rid r then Inl DuplicateKey
      else if \<exists>x \<in> set rs. req_sender x = req_sender r \<and> req_recipient x = req_recipient r
      then Inl DuplicateKey
      else Inr (rs @ [r]))"

text \<open>
  \<^verbatim>\<open>checkExistingRelation(senderId, recipientId)\<close>. The route passes \<^verbatim>\<open>req.user._id\<close>, an
  ObjectId, as \<^verbatim>\<open>senderId\<close> and the body's string as \<^verbatim>\<open>recipientId\<close>; the queries
  cast either to an ObjectId, but the last test,
  \<^verbatim>\<open>existingRequest.sender.toString() === senderId\<close>, is a strict equality between a string
  and \<^verbatim>\<open>senderId\<close> as it was passed. The argument therefore keeps its JavaScript type.
  The result is the pair of \<^verbatim>\<open>type\<close> and \<^verbatim>\<open>message\<close>; \<open>None\<close> is the TypeError
  thrown by \<^verbatim>\<open>sender.friends\<close> when the sender's document does not exist.
\<close>

datatype js_id = ObjectId object_id | IdString string

fun toString :: "js_id \<Rightarrow> string" where
  "toString (ObjectId i) = i"
| "toString (IdString s) = s"

fun strict_eq_string :: "string \<Rightarrow> js_id \<Rightarrow> bool" where
  "strict_eq_string s (IdString t) = (s = t)"
| "strict_eq_string s (ObjectId i) = False"

definition checkExistingRelation :: "db \<Rightarrow> js_id \<Rightarrow> string \<Rightarrow> (string \<times> string) option" where
  "checkExistingRelation d senderId recipientId =
     (case findById (users d) (toString senderId) of
        None \<Rightarrow> None
      | Some sender_doc \<Rightarrow>
          if recipientId \<in> set (friends sender_doc)
          then Some (''friends'', ''You are already friends with this user'')
          else
            (case find_one (\<lambda>r. ((req_sender r = toString senderId \<and> req_recipient r = recipientId) \<or>
                                   (req_sender r = recipientId \<and> req_recipient r = toString senderId)) \<and>
                                  req_status r = Pending) (requests d) of
               Some existingRequest \<Rightarrow>
                 if strict_eq_string (req_sender existingRequest) senderId
                 then Some (''sent'', ''Friend request already sent'')
                 else Some (''received'', ''You have a pending friend request from this user'')
             | None \<Rightarrow> Some (''none'', ''No existing relation'')))"

section \<open>routes/friends.js\<close>

subsection \<open>POST /api/friends/request\<close>

text \<open>
  The handler first validates and consults \<^verbatim>\<open>checkExistingRelation\<close>
  (\<open>send_request_check\<close>: reads only), then builds the document and awaits
  \<^verbatim>\<open>friendRequest.save()\<close> (\<open>send_request_save\<close>). Every exception, the duplicate-key
  error of the unique index among them, reaches the handler's one \<^verbatim>\<open>catch\<close>, which
  answers 500 \<^verbatim>\<open>Server error\<close>. The body's \<^verbatim>\<open>recipientId\<close> and \<^verbatim>\<open>message\<close> may be
  absent; the empty string is falsy like an absent value. The new document's \<^verbatim>\<open>_id\<close> and
  the clock are parameters. The reply's payload is the stored document (the population of
  the sender's brief is left out).
\<close>

definition send_request_check :: "db \<Rightarrow> user \<Rightarrow> string option \<Rightarrow> error option" where
  "send_request_check d req_user recipientId =
     (case recipientId of
        None \<Rightarrow> Some (Err 400 ''Recipient ID is required'')
      | Some rcp \<Rightarrow>
          if rcp = [] then Some (Err 400 ''Recipient ID is required'')
          else if uid req_user = rcp
          then Some (Err 400 ''You cannot send a friend request to yourself'')
          else
            (case findById (users d) rcp of
               None \<Rightarrow> Some (Err 404 ''User not found'')
             | Some recipient_doc \<Rightarrow>
                 (case checkExistingRelation d (ObjectId (uid req_user)) rcp of
                    None \<Rightarrow> Some (Err 500 ''Server error'')
                  | Some existingRelation \<Rightarrow>
                      if fst existingRelation \<noteq> ''none''
                      then Some (Err 400 (snd existingRelation))
                      else None)))"

definition new_request :: "object_id \<Rightarrow> object_id \<Rightarrow> object_id \<Rightarrow> string option \<Rightarrow> date \<Rightarrow> friend_request" where
  "new_request new_id senderId recipientId msg now =
     \<lparr>rid = new_id, req_sender = senderId, req_recipient = recipientId, req_status = Pending,
      req_message = (case msg of None \<Rightarrow> [] | Some m \<Rightarrow> m),
      req_createdAt = now, req_updatedAt = now\<rparr>"

definition send_request_save ::
  "db \<Rightarrow> user \<Rightarrow> object_id \<Rightarrow> string option \<Rightarrow> object_id \<Rightarrow> date \<Rightarrow> (error + friend_request) \<times> db" where
  "send_request_save d req_user recipientId msg new_id now =
     (let friendRequest = new_request new_id (uid req_user) recipientId msg now in
      case insert_request (requests d) friendRequest of
        Inl e \<Rightarrow> (Inl (Err 500 ''Server error''), d)
      | Inr rs \<Rightarrow> (Inr friendRequest, d\<lparr>requests := rs\<rparr>))"

definition send_request ::
  "db \<Rightarrow> user \<Rightarrow> string option \<Rightarrow> string option \<Rightarrow> object_id \<Rightarrow> date \<Rightarrow> (error + friend_request) \<times> db" where
  "send_request d req_user recipientId msg new_id now =
     (case send_request_check d req_user recipientId of
        Some e \<Rightarrow> (Inl e, d)
      | None \<Rightarrow> send_request_save d req_user (case recipientId of Some rcp \<Rightarrow> rcp | None \<Rightarrow> []) msg new_id now)"

subsection \<open>PUT /api/friends/request/:id/accept\<close>

text \<open>
  The handler awaits four storage operations in turn: \<^verbatim>\<open>findOne\<close> with the guard
  (\<open>accept_find\<close>), \<^verbatim>\<open>save()\<close> of the loaded document with its status set to accepted
  (\<open>accept_save\<close>: an update by \<^verbatim>\<open>_id\<close> of the modified path, with no condition on the
  stored status), and one \<^verbatim>\<open>$addToSet\<close> per user (\<open>add_friend\<close>).
\<close>

definition accept_find :: "db \<Rightarrow> object_id \<Rightarrow> object_id \<Rightarrow> friend_request option" where
  "accept_find d requestId userId =
     find_one (\<lambda>r. rid r = requestId \<and> req_recipient r = userId \<and> req_status r = Pending) (requests d)"

definition accept_save :: "db \<Rightarrow> friend_request \<Rightarrow> date \<Rightarrow> db" where
  "accept_save d friendRequest now =
     d\<lparr>requests := update_one (\<lambda>r. rid r = rid friendRequest)
                               (\<lambda>r. r\<lparr>req_status := Accepted, req_updatedAt := now\<rparr>) (requests d)\<rparr>"

definition addToSet :: "'a \<Rightarrow> 'a list \<Rightarrow> 'a list" where
  "addToSet x xs = (if x \<in> set xs then xs else xs @ [x])"

definition add_friend :: "db \<Rightarrow> object_id \<Rightarrow> object_id \<Rightarrow> db" where
  "add_friend d userId friendId =
     d\<lparr>users := update_one (\<lambda>u. uid u = userId)
                            (\<lambda>u. u\<lparr>friends := addToSet friendId (friends u)\<rparr>) (users d)\<rparr>"

definition accept :: "db \<Rightarrow> user \<Rightarrow> object_id \<Rightarrow> date \<Rightarrow> (error + friend_request) \<times> db" where
  "accept d req_user requestId now =
     (case accept_find d requestId (uid req_user) of
        None \<Rightarrow> (Inl (Err 404 ''Friend request not found''), d)
      | Some friendRequest \<Rightarrow>
          (let d1 = accept_save d friendRequest now;
               d2 = add_friend d1 (uid req_user) (req_sender friendRequest);
               d3 = add_friend d2 (req_sender friendRequest) (uid req_user)
           in (Inr (friendRequest\<lparr>req_status := Accepted, req_updatedAt := now\<rparr>), d3)))"

text \<open>
  Two requests in flight: each \<^verbatim>\<open>await\<close> hands control back to the event loop, so the
  storage operations of two handler runs interleave. A run is a program counter; a step
  performs the next storage operation of that run.
\<close>

datatype accept_run =
    AcceptStart
  | AcceptFound friend_request
  | AcceptSaved friend_request
  | AcceptAdded friend_request
  | AcceptDone "error + friend_request"

fun accept_step :: "user \<Rightarrow> object_id \<Rightarrow> date \<Rightarrow> db \<Rightarrow> accept_run \<Rightarrow> db \<times> accept_run" where
  "accept_step req_user requestId now d AcceptStart =
     (case accept_find d requestId (uid req_user) of
        None \<Rightarrow> (d, AcceptDone (Inl (Err 404 ''Friend request not found'')))
      | Some friendRequest \<Rightarrow> (d, AcceptFound friendRequest))"
| "accept_step req_user requestId now d (AcceptFound fr) =
     (accept_save d fr now, AcceptSaved (fr\<lparr>req_status := Accepted, req_updatedAt := now\<rparr>))"
| "accept_step req_user requestId now d (AcceptSaved fr) =
     (add_friend d (uid req_user) (req_sender fr), AcceptAdded fr)"
| "accept_step req_user requestId now d (AcceptAdded fr) =
     (add_friend d (req_sender fr) (uid req_user), AcceptDone (Inr fr))"
| "accept_step req_user requestId now d (AcceptDone r) = (d, AcceptDone r)"

text \<open>One handler run on its own: its steps in order, until it has answered.\<close>

fun accept_steps :: "nat \<Rightarrow> user \<Rightarrow> object_id \<Rightarrow> date \<Rightarrow> db \<times> accept_run \<Rightarrow> db \<times> accept_run" where
  "accept_steps 0 req_user requestId now s = s"
| "accept_steps (Suc n) req_user requestId now s =
     accept_steps n req_user requestId now (accept_step req_user requestId now (fst s) (snd s))"

text \<open>
  Two runs of the accept handler (the first at time \<open>now1\<close>, the second at \<open>now2\<close>) under
  a schedule: \<open>False\<close> lets the first run take its next step, \<open>True\<close> the second.
\<close>

fun accept_interleaved ::
  "bool list \<Rightarrow> user \<Rightarrow> object_id \<Rightarrow> date \<Rightarrow> user \<Rightarrow> object_id \<Rightarrow> date \<Rightarrow>
   db \<times> accept_run \<times> accept_run \<Rightarrow> db \<times> accept_run \<times> accept_run" where
  "accept_interleaved [] u1 r1 now1 u2 r2 now2 s = s"
| "accept_interleaved (False # sched) u1 r1 now1 u2 r2 now2 (d, a, b) =
     (case accept_step u1 r1 now1 d a of
        (d', a') \<Rightarrow> accept_interleaved sched u1 r1 now1 u2 r2 now2 (d', a', b))"
| "accept_interleaved (True # sched) u1 r1 now1 u2 r2 now2 (d, a, b) =
     (case accept_step u2 r2 now2 d b of
        (d', b') \<Rightarrow> accept_interleaved sched u1 r1 now1 u2 r2 now2 (d', a, b'))"

subsection \<open>PUT /api/friends/request/:id/reject\<close>

text \<open>One \<^verbatim>\<open>findOneAndUpdate\<close>: the guard and the transition are a single storage operation.\<close>

definition reject :: "db \<Rightarrow> user \<Rightarrow> object_id \<Rightarrow> date \<Rightarrow> (error + friend_request) \<times> db" where
  "reject d req_user requestId now =
     (let guard = (\<lambda>r. rid r = requestId \<and> req_recipient r = uid req_user \<and> req_status r = Pending) in
      case find_one guard (requests d) of
        None \<Rightarrow> (Inl (Err 404 ''Friend request not found''), d)
      | Some r \<Rightarrow>
          (Inr (r\<lparr>req_status := Rejected, req_updatedAt := now\<rparr>),
           d\<lparr>requests := update_one guard (\<lambda>r. r\<lparr>req_status := Rejected, req_updatedAt := now\<rparr>)
                                     (requests d)\<rparr>))"

subsection \<open>DELETE /api/friends/:friendId\<close>

definition pull_friend :: "db \<Rightarrow> object_id \<Rightarrow> object_id \<Rightarrow> db" where
  "pull_friend d userId friendId =
     d\<lparr>users := update_one (\<lambda>u. uid u = userId)
                            (\<lambda>u. u\<lparr>friends := filter (\<lambda>f. f \<noteq> friendId) (friends u)\<rparr>) (users d)\<rparr>"

definition remove_friend :: "db \<Rightarrow> user \<Rightarrow> object_id \<Rightarrow> (error + unit) \<times> db" where
  "remove_friend d req_user friendId =
     (case findById (users d) (uid req_user) of
        None \<Rightarrow> (Inl (Err 500 ''Server error''), d)
      | Some user_doc \<Rightarrow>
          if friendId \<notin> set (friends user_doc)
          then (Inl (Err 400 ''You are not friends with this user''), d)
          else (Inr (), pull_friend (pull_friend d (uid req_user) friendId) friendId (uid req_user)))"

section \<open>routes/messages.js\<close>

subsection \<open>POST /api/messages/send\<close>

text \<open>
  The durable send path: the friendship check, then \<^verbatim>\<open>message.save()\<close>, whose schema
  validation (content required after trimming and at most 1000 characters, message type one
  of the enum) and insert can raise into the handler's \<^verbatim>\<open>catch\<close>. The reply's payload is
  the stored document (the population of the sender's brief is left out).
\<close>

definition new_message :: "object_id \<Rightarrow> object_id \<Rightarrow> object_id \<Rightarrow> string \<Rightarrow> string \<Rightarrow> date \<Rightarrow> message" where
  "new_message new_id senderId recipientId text mtype now =
     \<lparr>mid = new_id, sender = senderId, recipient = recipientId, content = trim text,
      messageType = mtype, isRead = False, readAt = None, isEdited = False, editedAt = None,
      createdAt = now\<rparr>"

definition insert_message :: "message list \<Rightarrow> message \<Rightarrow> save_error + message list" where
  "insert_message ms m =
     (if content m = [] \<or> length (content m) > 1000 \<or>
         messageType m \<notin> set [''text'', ''image'', ''file'']
      then Inl ValidationError
      else if \<exists>x \<in> set ms. mid x = mid m then Inl DuplicateKey
      else Inr (ms @ [m]))"

definition send_message ::
  "db \<Rightarrow> user \<Rightarrow> string option \<Rightarrow> string option \<Rightarrow> string option \<Rightarrow> object_id \<Rightarrow> date \<Rightarrow>
   (error + message) \<times> db" where
  "send_message d req_user recipientId text mtype new_id now =
     (case (recipientId, text) of
        (Some rcp, Some txt) \<Rightarrow>
          if rcp = [] \<or> txt = []
          then (Inl (Err 400 ''Recipient ID and content are required''), d)
          else
            (case findById (users d) (uid req_user) of
               None \<Rightarrow> (Inl (Err 500 ''Server error''), d)
             | Some sender_doc \<Rightarrow>
                 if rcp \<notin> set (friends sender_doc)
                 then (Inl (Err 403 ''You can only send messages to your friends''), d)
                 else
                   (let m = new_message new_id (uid req_user) rcp txt
                              (case mtype of None \<Rightarrow> ''text'' | Some t \<Rightarrow> t) now
                    in case insert_message (messages d) m of
                         Inl e \<Rightarrow> (Inl (Err 500 ''Server error''), d)
                       | Inr ms \<Rightarrow> (Inr m, d\<lparr>messages := ms\<rparr>)))
      | _ \<Rightarrow> (Inl (Err 400 ''Recipient ID and content are required''), d))"

subsection \<open>GET /api/messages/conversation/:userId\<close>

text \<open>
  \<^verbatim>\<open>parseInt(x) || dflt\<close>: the parsed value is \<open>None\<close> for NaN (an absent or non-numeric
  parameter); NaN and 0 are falsy and give the default.
\<close>

definition or_default :: "int option \<Rightarrow> int \<Rightarrow> int" where
  "or_default parsed dflt = (case parsed of None \<Rightarrow> dflt | Some n \<Rightarrow> if n = 0 then dflt else n)"

definition between :: "object_id \<Rightarrow> object_id \<Rightarrow> message \<Rightarrow> bool" where
  "between a b m = ((sender m = a \<and> recipient m = b) \<or> (sender m = b \<and> recipient m = a))"

text \<open>\<^verbatim>\<open>sort({ createdAt: -1 })\<close>; documents of equal time keep their natural order.\<close>

definition newest_first :: "message list \<Rightarrow> message list" where
  "newest_first ms = sort_key (\<lambda>m. - createdAt m) ms"

text \<open>
  The query \<^verbatim>\<open>find(...).sort(...).limit(limit).skip(skip)\<close>: the storage engine skips
  before it limits, refuses a negative skip with an error (\<open>None\<close>), and takes a negative
  limit by its absolute value. The limit is never 0 here.
\<close>

definition find_conversation ::
  "message list \<Rightarrow> object_id \<Rightarrow> object_id \<Rightarrow> int \<Rightarrow> int \<Rightarrow> message list option" where
  "find_conversation ms a b limit skip =
     (if skip < 0 then None
      else Some (take (nat \<bar>limit\<bar>) (drop (nat skip) (newest_first (filter (between a b) ms)))))"

record conversation_page =
  page_messages :: "message list"
  page_number :: int
  page_limit :: int
  hasMore :: bool

definition set_read :: "date \<Rightarrow> message \<Rightarrow> message" where
  "set_read now m = m\<lparr>isRead := True, readAt := Some now\<rparr>"

definition fetch_conversation ::
  "db \<Rightarrow> user \<Rightarrow> object_id \<Rightarrow> int option \<Rightarrow> int option \<Rightarrow> date \<Rightarrow> (error + conversation_page) \<times> db" where
  "fetch_conversation d req_user otherUserId page_param limit_param now =
     (let page = or_default page_param 1;
          limit = or_default limit_param 50;
          skip = (page - 1) * limit
      in case findById (users d) (uid req_user) of
           None \<Rightarrow> (Inl (Err 500 ''Server error''), d)
         | Some currentUser \<Rightarrow>
             if otherUserId \<notin> set (friends currentUser)
             then (Inl (Err 403 ''You can only view conversations with your friends''), d)
             else
               (case find_conversation (messages d) (uid req_user) otherUserId limit skip of
                  None \<Rightarrow> (Inl (Err 500 ''Server error''), d)
                | Some found \<Rightarrow>
                    (let msgs = rev found;
                         d' = d\<lparr>messages :=
                                  update_many (\<lambda>m. sender m = otherUserId \<and>
                                                    recipient m = uid req_user \<and> \<not> isRead m)
                                              (set_read now) (messages d)\<rparr>
                     in (Inr \<lparr>page_messages = msgs, page_number = page, page_limit = limit,
                              hasMore = (int (length msgs) = limit)\<rparr>, d'))))"

subsection \<open>GET /api/messages/unread/count\<close>

definition unread_count :: "db \<Rightarrow> user \<Rightarrow> nat" where
  "unread_count d req_user =
     length (filter (\<lambda>m. recipient m = uid req_user \<and> \<not> isRead m) (messages d))"

subsection \<open>GET /api/messages/conversations\<close>

text \<open>The aggregation pipeline, stage by stage.\<close>

record conversation_user =
  cu_id :: object_id
  cu_username :: string
  cu_avatar :: string
  cu_status :: string
  cu_lastSeen :: date

record last_message =
  lm_content :: string
  lm_createdAt :: date
  lm_sender :: object_id

record conversation =
  conv_id :: object_id
  conv_user :: conversation_user
  lastMessage :: last_message
  unreadCount :: nat

text \<open>\<^verbatim>\<open>$match\<close>: the messages the user sent or received.\<close>

definition match_stage :: "object_id \<Rightarrow> message list \<Rightarrow> message list" where
  "match_stage userId ms = filter (\<lambda>m. sender m = userId \<or> recipient m = userId) ms"

text \<open>The group key: \<^verbatim>\<open>$cond: [{ $eq: ['$sender', userId] }, '$recipient', '$sender']\<close>.\<close>

definition counterpart :: "object_id \<Rightarrow> message \<Rightarrow> object_id" where
  "counterpart userId m = (if sender m = userId then recipient m else sender m)"

text \<open>
  \<^verbatim>\<open>$group\<close>: per key, \<^verbatim>\<open>$first\<close> of the incoming (sorted) documents and the sum of 1
  over the documents addressed to the user and unread. The engine leaves the order of the
  groups open; here they come in the order of \<open>remdups\<close> on the keys.
\<close>

definition group_stage :: "object_id \<Rightarrow> message list \<Rightarrow> (object_id \<times> message \<times> nat) list" where
  "group_stage userId ms =
     concat (map (\<lambda>k. case filter (\<lambda>m. counterpart userId m = k) ms of
                         [] \<Rightarrow> []
                       | first # rest \<Rightarrow>
                           [(k, first,
                             length (filter (\<lambda>m. recipient m = userId \<and> \<not> isRead m) (first # rest)))])
                 (remdups (map (counterpart userId) ms)))"

text \<open>\<^verbatim>\<open>$lookup\<close> into users on \<^verbatim>\<open>_id\<close>, then \<^verbatim>\<open>$unwind\<close>: one output per joined user
  document, none for a key without a user.\<close>

definition lookup_unwind_stage ::
  "user list \<Rightarrow> (object_id \<times> message \<times> nat) list \<Rightarrow> (object_id \<times> message \<times> nat \<times> user) list" where
  "lookup_unwind_stage us groups =
     concat (map (\<lambda>(k, first, n). map (\<lambda>u. (k, first, n, u)) (filter (\<lambda>u. uid u = k) us)) groups)"

definition project_stage :: "(object_id \<times> message \<times> nat \<times> user) \<Rightarrow> conversation" where
  "project_stage g = (case g of (k, first, n, u) \<Rightarrow>
     \<lparr>conv_id = k,
      conv_user = \<lparr>cu_id = uid u, cu_username = username u, cu_avatar = avatar u,
                   cu_status = status u, cu_lastSeen = lastSeen u\<rparr>,
      lastMessage = \<lparr>lm_content = content first, lm_createdAt = createdAt first,
                     lm_sender = sender first\<rparr>,
      unreadCount = n\<rparr>)"

definition list_conversations :: "db \<Rightarrow> user \<Rightarrow> conversation list" where
  "list_conversations d req_user =
     sort_key (\<lambda>c. - lm_createdAt (lastMessage c))
       (map project_stage
         (lookup_unwind_stage (users d)
           (group_stage (uid req_user)
             (newest_first (match_stage (uid req_user) (messages d))))))"

section \<open>server.js: the Socket.IO handlers\<close>

text \<open>
  \<^verbatim>\<open>connectedUsers\<close> is a Map from the identity a connection announced to a socket id;
  every socket object carries the \<^verbatim>\<open>userId\<close> property its last join set. An emission is
  either \<^verbatim>\<open>socket.broadcast.emit\<close> (to every connection but the emitting one) or
  \<^verbatim>\<open>io.to(id).emit\<close>; the state records them in order. Identities and payloads are
  whatever the client sent, here strings; the empty string is falsy.
\<close>

type_synonym socket_id = string

datatype event =
    user_online string
  | user_offline string
  | receive_message string string date
  | user_typing "string option" bool

datatype emission = Broadcast socket_id event | To socket_id event

record server =
  connectedUsers :: "string \<rightharpoonup> socket_id"
  socket_userId :: "socket_id \<rightharpoonup> string"
  emitted :: "emission list"

definition server0 :: server where
  "server0 = \<lparr>connectedUsers = Map.empty, socket_userId = Map.empty, emitted = []\<rparr>"

definition join :: "socket_id \<Rightarrow> string \<Rightarrow> server \<Rightarrow> server" where
  "join sock userId s =
     s\<lparr>connectedUsers := (connectedUsers s)(userId \<mapsto> sock),
       socket_userId := (socket_userId s)(sock \<mapsto> userId),
       emitted := emitted s @ [Broadcast sock (user_online userId)]\<rparr>"

record send_message_data =
  data_recipientId :: string
  data_message :: string
  data_senderId :: string

definition on_send_message :: "socket_id \<Rightarrow> send_message_data \<Rightarrow> date \<Rightarrow> server \<Rightarrow> server" where
  "on_send_message sock data now s =
     (case connectedUsers s (data_recipientId data) of
        None \<Rightarrow> s
      | Some recipientSocketId \<Rightarrow>
          if recipientSocketId = [] then s
          else s\<lparr>emitted := emitted s @
                   [To recipientSocketId (receive_message (data_senderId data) (data_message data) now)]\<rparr>)"

definition on_typing :: "socket_id \<Rightarrow> string \<Rightarrow> bool \<Rightarrow> server \<Rightarrow> server" where
  "on_typing sock recipientId isTyping s =
     (case connectedUsers s recipientId of
        None \<Rightarrow> s
      | Some recipientSocketId \<Rightarrow>
          if recipientSocketId = [] then s
          else s\<lparr>emitted := emitted s @
                   [To recipientSocketId (user_typing (socket_userId s sock) isTyping)]\<rparr>)"

definition disconnect :: "socket_id \<Rightarrow> server \<Rightarrow> server" where
  "disconnect sock s =
     (case socket_userId s sock of
        None \<Rightarrow> s
      | Some userId \<Rightarrow>
          if userId = [] then s
          else s\<lparr>connectedUsers := (connectedUsers s)(userId := None),
                 emitted := emitted s @ [Broadcast sock (user_offline userId)]\<rparr>)"

section \<open>Sample data\<close>

definition alice :: user where
  "alice = \<lparr>uid = ''u1'', username = ''alice'', email = ''alice@example.org'', avatar = [],
     bio = [], status = ''offline'', lastSeen = 10, friends = []\<rparr>"

definition bob :: user where
  "bob = \<lparr>uid = ''u2'', username = ''bob'', email = ''bob@example.org'', avatar = [],
     bio = [], status = ''offline'', lastSeen = 20, friends = []\<rparr>"

definition db0 :: db where
  "db0 = \<lparr>users = [alice, bob], requests = [], messages = []\<rparr>"

text \<open>Alice's request to Bob, as \<open>send_request\<close> stores it at time 1 under the id r1.\<close>

definition request1 :: friend_request where
  "request1 = \<lparr>rid = ''r1'', req_sender = ''u1'', req_recipient = ''u2'', req_status = Pending,
     req_message = ''hi'', req_createdAt = 1, req_updatedAt = 1\<rparr>"

definition db_pending :: db where
  "db_pending = db0\<lparr>requests := [request1]\<rparr>"

definition db_rejected :: db where
  "db_rejected = db0\<lparr>requests := [request1\<lparr>req_status := Rejected, req_updatedAt := 2\<rparr>]\<rparr>"

definition db_friends :: db where
  "db_friends = \<lparr>users = [alice\<lparr>friends := [''u2'']\<rparr>, bob\<lparr>friends := [''u1'']\<rparr>],
     requests = [request1\<lparr>req_status := Accepted, req_updatedAt := 2\<rparr>], messages = []\<rparr>"

definition db_removed :: db where
  "db_removed = db_friends\<lparr>users := [alice, bob]\<rparr>"

text \<open>A store with three users and four unread messages.\<close>

definition alice_c :: user where
  "alice_c = alice\<lparr>friends := [''u2'', ''u3'']\<rparr>"

definition bob_c :: user where
  "bob_c = bob\<lparr>friends := [''u1'']\<rparr>"

definition carol :: user where
  "carol = \<lparr>uid = ''u3'', username = ''carol'', email = ''carol@example.org'', avatar = [],
     bio = [], status = ''online'', lastSeen = 30, friends = [''u1'']\<rparr>"

definition unread_text :: "object_id \<Rightarrow> object_id \<Rightarrow> object_id \<Rightarrow> string \<Rightarrow> date \<Rightarrow> message" where
  "unread_text i a b text t = \<lparr>mid = i, sender = a, recipient = b, content = text, messageType = ''text'',
     isRead = False, readAt = None, isEdited = False, editedAt = None, createdAt = t\<rparr>"

definition msg1 :: message where "msg1 = unread_text ''m1'' ''u2'' ''u1'' ''hello'' 10"
definition msg2 :: message where "msg2 = unread_text ''m2'' ''u1'' ''u2'' ''hi bob'' 20"
definition msg3 :: message where "msg3 = unread_text ''m3'' ''u2'' ''u1'' ''again'' 30"
definition msg4 :: message where "msg4 = unread_text ''m4'' ''u3'' ''u1'' ''yo'' 40"

definition db_chat :: db where
  "db_chat = \<lparr>users = [alice_c, bob_c, carol], requests = [], messages = [msg1, msg2, msg3, msg4]\<rparr>"

text \<open>A directory with a user named abc, for the search.\<close>

definition abc :: user where
  "abc = \<lparr>uid = ''u4'', username = ''abc'', email = ''abc@example.org'', avatar = [],
     bio = [], status = ''offline'', lastSeen = 40, friends = []\<rparr>"

definition db_search :: db where
  "db_search = \<lparr>users = [alice, abc], requests = [], messages = []\<rparr>"

section \<open>Notions used in the statements\<close>

text \<open>
  The text \<open>q\<close> occurs in \<open>s\<close>, letters compared without regard to case (ASCII):
  what a partial, case-insensitive match of a literal query is.
\<close>

definition eq_ci :: "char \<Rightarrow> char \<Rightarrow> bool" where
  "eq_ci a b =
     (let m = of_char a :: nat; n = of_char b :: nat
      in m = n \<or> (65 \<le> m \<and> m \<le> 90 \<and> n = m + 32) \<or> (65 \<le> n \<and> n \<le> 90 \<and> m = n + 32))"

fun has_prefix_ci :: "string \<Rightarrow> string \<Rightarrow> bool" where
  "has_prefix_ci [] s = True"
| "has_prefix_ci (q # qs) [] = False"
| "has_prefix_ci (q # qs) (c # cs) = (eq_ci q c \<and> has_prefix_ci qs cs)"

fun contains_ci :: "string \<Rightarrow> string \<Rightarrow> bool" where
  "contains_ci q [] = has_prefix_ci q []"
| "contains_ci q (c # cs) = (has_prefix_ci q (c # cs) \<or> contains_ci q cs)"

text \<open>The friends relation of the user directory: \<open>b\<close> is in the friends array of \<open>a\<close>.\<close>

definition is_friend :: "db \<Rightarrow> object_id \<Rightarrow> object_id \<Rightarrow> bool" where
  "is_friend d a b = (case findById (users d) a of None \<Rightarrow> False | Some u \<Rightarrow> b \<in> set (friends u))"

text \<open>
  A regular-expression matcher for the patterns made of ordinary characters and dots only:
  a dot matches any character but a line feed, any other character matches itself without
  regard to case, and the pattern may match anywhere in the subject.
\<close>

fun dots_match_here :: "string \<Rightarrow> string \<Rightarrow> bool" where
  "dots_match_here [] s = True"
| "dots_match_here (p # ps) [] = False"
| "dots_match_here (p # ps) (c # cs) =
     ((if p = CHR ''.'' then c \<noteq> CHR 0x0A else eq_ci p c) \<and> dots_match_here ps cs)"

fun dots_match :: "string \<Rightarrow> string \<Rightarrow> bool" where
  "dots_match p [] = dots_match_here p []"
| "dots_match p (c # cs) = (dots_match_here p (c # cs) \<or> dots_match p cs)"

section \<open>Properties\<close>

lemma find_one_update_one_same:
  "(\<And>x. p (f x) = p x) \<Longrightarrow> find_one p (update_one p f docs) = map_option f (find_one p docs)"
  by (induction docs) (auto simp: find_one_def)

lemma find_one_update_one_other:
  "(\<And>x. q (f x) = q x) \<Longrightarrow> (\<And>x. q x \<Longrightarrow> \<not> p x) \<Longrightarrow>
   find_one q (update_one p f docs) = find_one q docs"
  by (induction docs) (auto simp: find_one_def)

lemma map_update_one:
  "(\<And>x. g (f x) = g x) \<Longrightarrow> map g (update_one p f docs) = map g docs"
  by (induction docs) auto

text \<open>
  C10. Updating the caller's status to one of online, offline, away also overwrites the
  caller's lastSeen with the current time: the stored document of the caller becomes the
  old one with exactly the fields status and lastSeen replaced, every other user's document
  and the other two collections are unchanged, and the reply carries the new status.
\<close>

theorem update_status_sets_lastSeen:
  "s \<in> {''online'', ''offline'', ''away''} \<Longrightarrow>
   (\<exists>d'. update_status d me (Some s) now = (Inr s, d') \<and>
      findById (users d') (uid me) =
        map_option (\<lambda>u. u\<lparr>status := s, lastSeen := now\<rparr>) (findById (users d) (uid me)) \<and>
      (\<forall>i. i \<noteq> uid me \<longrightarrow> findById (users d') i = findById (users d) i) \<and>
      map uid (users d') = map uid (users d) \<and>
      requests d' = requests d \<and> messages d' = messages d)"
proof -
  assume s: "s \<in> {''online'', ''offline'', ''away''}"
  let ?us = "update_one (\<lambda>u. uid u = uid me) (\<lambda>u. u\<lparr>status := s, lastSeen := now\<rparr>) (users d)"
  have valid: "s \<in> set valid_statuses"
    using s by (auto simp: valid_statuses_def)
  have run: "update_status d me (Some s) now = (Inr s, d\<lparr>users := ?us\<rparr>)"
    using valid by (simp add: update_status_def)
  have same: "findById ?us (uid me) =
      map_option (\<lambda>u. u\<lparr>status := s, lastSeen := now\<rparr>) (findById (users d) (uid me))"
    unfolding findById_def by (rule find_one_update_one_same) simp
  have other: "findById ?us i = findById (users d) i" if "i \<noteq> uid me" for i
    unfolding findById_def using that by (intro find_one_update_one_other) auto
  have ids: "map uid ?us = map uid (users d)"
    by (rule map_update_one) simp
  show ?thesis
    using run same other ids by simp
qed

theorem update_status_sets_lastSeen_witness:
  "''away'' \<in> {''online'', ''offline'', ''away''} \<and>
   update_status db0 alice (Some ''away'') 99 =
     (Inr ''away'', db0\<lparr>users := [alice\<lparr>status := ''away'', lastSeen := 99\<rparr>, bob]\<rparr>) \<and>
   findById (users (snd (update_status db0 alice (Some ''away'') 99))) ''u1'' =
     Some (alice\<lparr>status := ''away'', lastSeen := 99\<rparr>) \<and>
   findById (users (snd (update_status db0 alice (Some ''away'') 99))) ''u2'' = Some bob"
  using update_status_sets_lastSeen [of "''away''" db0 alice 99]
  by (simp add: update_status_def valid_statuses_def db0_def alice_def bob_def findById_def
      find_one_def)

subsection \<open>The friend graph\<close>

lemma set_addToSet: "set (addToSet x xs) = insert x (set xs)"
  by (auto simp: addToSet_def)

lemma distinct_addToSet: "distinct xs \<Longrightarrow> distinct (addToSet x xs)"
  by (simp add: addToSet_def)

lemma addToSet_member: "x \<in> set xs \<Longrightarrow> addToSet x xs = xs"
  by (simp add: addToSet_def)

lemma count_list_distinct: "distinct xs \<Longrightarrow> count_list xs x = (if x \<in> set xs then 1 else 0)"
  by (induction xs) auto

lemma count_addToSet: "distinct xs \<Longrightarrow> count_list (addToSet x xs) x = 1"
  by (simp add: count_list_distinct distinct_addToSet set_addToSet)

lemma findById_add_friend:
  "findById (users (add_friend d a f)) i =
     (if i = a then map_option (\<lambda>u. u\<lparr>friends := addToSet f (friends u)\<rparr>) (findById (users d) a)
      else findById (users d) i)"
proof (cases "i = a")
  case True
  then show ?thesis
    unfolding findById_def add_friend_def by (simp add: find_one_update_one_same)
next
  case False
  then show ?thesis
    unfolding findById_def add_friend_def
    by (simp, intro find_one_update_one_other) auto
qed

lemma users_accept_save: "users (accept_save d fr now) = users d"
  by (simp add: accept_save_def)

lemma is_friend_add_friend:
  "findById (users d) a = Some u \<Longrightarrow>
   is_friend (add_friend d a f) x y = (is_friend d x y \<or> (x = a \<and> y = f))"
  by (auto simp: is_friend_def findById_add_friend set_addToSet split: option.splits)

lemma accept_success:
  "accept d me requestId now = (Inr fr, d') \<Longrightarrow>
   \<exists>fr0. accept_find d requestId (uid me) = Some fr0 \<and> req_sender fr = req_sender fr0 \<and>
     d' = add_friend (add_friend (accept_save d fr0 now) (uid me) (req_sender fr0))
            (req_sender fr0) (uid me)"
  by (auto simp: accept_def Let_def split: option.splits)

text \<open>The step model of the accept handler, run alone, is the handler.\<close>

lemma accept_steps_accept:
  "accept_steps 4 me r now (d, AcceptStart) =
     (case accept d me r now of (res, d') \<Rightarrow> (d', AcceptDone res))"
  by (simp add: accept_def eval_nat_numeral Let_def split: option.splits)

text \<open>
  Whenever the guard of the accept handler finds a request, two runs that both perform
  their \<^verbatim>\<open>findOne\<close> before either saves are both answered with success.
\<close>

lemma concurrent_accepts_both_answered:
  "accept_find d r (uid me) = Some fr \<Longrightarrow>
   \<exists>d'. accept_interleaved [False, True, False, True, False, True, False, True]
          me r t1 me r t2 (d, AcceptStart, AcceptStart) =
        (d', AcceptDone (Inr (fr\<lparr>req_status := Accepted, req_updatedAt := t1\<rparr>)),
             AcceptDone (Inr (fr\<lparr>req_status := Accepted, req_updatedAt := t2\<rparr>)))"
  by simp

lemmas sample_defs = alice_def bob_def db0_def request1_def db_pending_def db_rejected_def
  db_friends_def db_removed_def

lemmas friends_defs = send_request_def send_request_check_def send_request_save_def
  new_request_def insert_request_def checkExistingRelation_def findById_def find_one_def
  reject_def accept_def accept_find_def accept_save_def add_friend_def addToSet_def
  remove_friend_def pull_friend_def Let_def

text \<open>
  C7. After a successful accept, the request's sender is in the acting user's friends
  array and the acting user is in the sender's, each exactly once (the arrays holding no
  duplicates before); each array is the old one with the other party added as to a set, so
  it is unchanged when the party was already present; and a symmetric friends relation
  stays symmetric. Both parties are documents of the user directory.
\<close>

theorem accept_inserts_symmetric_edge:
  assumes acc: "accept d me requestId now = (Inr fr, d')"
    and me: "findById (users d) (uid me) = Some u"
    and snd: "findById (users d) (req_sender fr) = Some s"
    and du: "distinct (friends u)" and ds: "distinct (friends s)"
  shows "\<exists>u' s'. findById (users d') (uid me) = Some u' \<and>
           findById (users d') (req_sender fr) = Some s' \<and>
           count_list (friends u') (req_sender fr) = 1 \<and>
           count_list (friends s') (uid me) = 1 \<and>
           set (friends u') = insert (req_sender fr) (set (friends u)) \<and>
           set (friends s') = insert (uid me) (set (friends s)) \<and>
           (req_sender fr \<in> set (friends u) \<longrightarrow> friends u' = friends u) \<and>
           (uid me \<in> set (friends s) \<longrightarrow> friends s' = friends s) \<and>
           ((\<forall>a b. is_friend d a b \<longrightarrow> is_friend d b a) \<longrightarrow>
            (\<forall>a b. is_friend d' a b \<longrightarrow> is_friend d' b a))"
proof -
  from accept_success [OF acc] obtain fr0 where
    sender: "req_sender fr = req_sender fr0" and
    d': "d' = add_friend (add_friend (accept_save d fr0 now) (uid me) (req_sender fr0))
              (req_sender fr0) (uid me)"
    by blast
  let ?m = "uid me" and ?s = "req_sender fr"
  let ?d1 = "accept_save d fr0 now"
  let ?d2 = "add_friend ?d1 ?m ?s"
  have d'2: "d' = add_friend ?d2 ?s ?m" using d' sender by simp
  have me1: "findById (users ?d1) ?m = Some u" and snd1: "findById (users ?d1) ?s = Some s"
    using me snd by (simp_all add: users_accept_save)
  have fr1: "is_friend ?d1 a b = is_friend d a b" for a b
    by (simp add: is_friend_def users_accept_save)
  obtain s2 where snd2: "findById (users ?d2) ?s = Some s2"
    using snd1 me1 by (cases "?s = ?m") (simp_all add: findById_add_friend)
  have rel: "is_friend d' a b = (is_friend d a b \<or> (a = ?m \<and> b = ?s) \<or> (a = ?s \<and> b = ?m))"
    for a b
    unfolding d'2 is_friend_add_friend [OF snd2] is_friend_add_friend [OF me1] fr1 by blast
  have sym: "(\<forall>a b. is_friend d a b \<longrightarrow> is_friend d b a) \<longrightarrow>
            (\<forall>a b. is_friend d' a b \<longrightarrow> is_friend d' b a)"
    unfolding rel by blast
  show ?thesis
  proof (cases "?s = ?m")
    case True
    then have "s = u" using me snd by simp
    with True show ?thesis
      using sym me1 du unfolding d'2
      by (simp add: findById_add_friend set_addToSet addToSet_member count_addToSet)
  next
    case False
    then show ?thesis
      using sym me1 snd1 du ds unfolding d'2
      by (simp add: findById_add_friend set_addToSet addToSet_member count_addToSet)
  qed
qed

theorem accept_inserts_symmetric_edge_witness:
  "accept db_pending bob ''r1'' 2 =
     (Inr (request1\<lparr>req_status := Accepted, req_updatedAt := 2\<rparr>), db_friends) \<and>
   findById (users db_pending) ''u2'' = Some bob \<and>
   findById (users db_pending) ''u1'' = Some alice \<and>
   distinct (friends bob) \<and> distinct (friends alice) \<and>
   (\<exists>u' s'. findById (users db_friends) ''u2'' = Some u' \<and>
      findById (users db_friends) ''u1'' = Some s' \<and>
      count_list (friends u') ''u1'' = 1 \<and> count_list (friends s') ''u2'' = 1)"
  using accept_inserts_symmetric_edge [of db_pending bob "''r1''" 2
      "request1\<lparr>req_status := Accepted, req_updatedAt := 2\<rparr>" db_friends bob alice]
  by (simp add: friends_defs sample_defs)

text \<open>
  C3 (the code at the failing input). Alice sends Bob a request, Bob rejects it, and the
  relation check then finds no relation between the two; Alice's brand-new request to Bob
  is nevertheless answered 500 \<^verbatim>\<open>Server error\<close> and nothing is stored, because the unique
  index on (sender, recipient) still holds the rejected request's pair. The same happens
  after an accepted request whose friend edge was removed. In the opposite direction
  (Bob to Alice) the new request is created.
\<close>

theorem resend_after_reject_server_error:
  "send_request db0 alice (Some ''u2'') (Some ''hi'') ''r1'' 1 = (Inr request1, db_pending) \<and>
   reject db_pending bob ''r1'' 2 =
     (Inr (request1\<lparr>req_status := Rejected, req_updatedAt := 2\<rparr>), db_rejected) \<and>
   checkExistingRelation db_rejected (ObjectId ''u1'') ''u2'' = Some (''none'', ''No existing relation'') \<and>
   send_request db_rejected alice (Some ''u2'') None ''r2'' 3 =
     (Inl (Err 500 ''Server error''), db_rejected) \<and>
   accept db_pending bob ''r1'' 2 =
     (Inr (request1\<lparr>req_status := Accepted, req_updatedAt := 2\<rparr>), db_friends) \<and>
   remove_friend db_friends alice ''u2'' = (Inr (), db_removed) \<and>
   send_request db_removed alice (Some ''u2'') None ''r2'' 3 =
     (Inl (Err 500 ''Server error''), db_removed) \<and>
   fst (send_request db_rejected bob (Some ''u1'') None ''r2'' 3) =
     Inr \<lparr>rid = ''r2'', req_sender = ''u2'', req_recipient = ''u1'', req_status = Pending,
          req_message = [], req_createdAt = 3, req_updatedAt = 3\<rparr>"
  by (simp add: friends_defs sample_defs)

text \<open>
  C8 (as stated, refuted). Two runs of the handler for Alice's request to Bob both pass
  the relation check on the empty store; the first save stores the request, the second hits
  the unique index and is answered 500 \<^verbatim>\<open>Server error\<close>, which is not the conflict message
  that the relation check gives on the store the second save ran against.
\<close>

theorem duplicate_key_not_translated:
  "send_request_check db0 alice (Some ''u2'') = None \<and>
   send_request_save db0 alice ''u2'' (Some ''hi'') ''r1'' 1 = (Inr request1, db_pending) \<and>
   send_request_save db_pending alice ''u2'' (Some ''hi'') ''r2'' 1 =
     (Inl (Err 500 ''Server error''), db_pending) \<and>
   send_request_check db_pending alice (Some ''u2'') =
     Some (Err 400 ''You have a pending friend request from this user'')"
  by (simp add: friends_defs sample_defs)

text \<open>
  C8 (amended). If the store already holds a request with the new request's ordered
  (sender, recipient) pair, saving the new request stores nothing and the handler answers
  with the generic failure, status 500 and message \<^verbatim>\<open>Server error\<close>: not a conflict message,
  and no detail of the storage error. This is what a sender gets whose request passed the
  relation check.
\<close>

theorem duplicate_key_reported_as_server_error:
  assumes "\<exists>x \<in> set (requests d). req_sender x = uid me \<and> req_recipient x = rcp"
  shows "send_request_save d me rcp msg new_id now = (Inl (Err 500 ''Server error''), d) \<and>
         (send_request_check d me (Some rcp) = None \<longrightarrow>
          send_request d me (Some rcp) msg new_id now = (Inl (Err 500 ''Server error''), d))"
proof -
  have "\<exists>e. insert_request (requests d) (new_request new_id (uid me) rcp msg now) = Inl e"
    using assms by (auto simp: insert_request_def new_request_def)
  then have "send_request_save d me rcp msg new_id now = (Inl (Err 500 ''Server error''), d)"
    by (auto simp: send_request_save_def Let_def)
  then show ?thesis
    by (simp add: send_request_def)
qed

theorem duplicate_key_reported_as_server_error_witness:
  "(\<exists>x \<in> set (requests db_rejected). req_sender x = uid alice \<and> req_recipient x = ''u2'') \<and>
   send_request_check db_rejected alice (Some ''u2'') = None \<and>
   send_request_save db_rejected alice ''u2'' None ''r2'' 3 =
     (Inl (Err 500 ''Server error''), db_rejected) \<and>
   send_request db_rejected alice (Some ''u2'') None ''r2'' 3 =
     (Inl (Err 500 ''Server error''), db_rejected)"
proof -
  have pair: "\<exists>x \<in> set (requests db_rejected). req_sender x = uid alice \<and> req_recipient x = ''u2''"
    by (simp add: sample_defs)
  have check: "send_request_check db_rejected alice (Some ''u2'') = None"
    by (simp add: friends_defs sample_defs)
  show ?thesis
    using pair check
      duplicate_key_reported_as_server_error [OF pair, of None "''r2''" 3]
    by simp
qed

text \<open>
  C2 (the code at the failing input). Bob's two concurrent accepts of Alice's pending
  request: each run performs its guarded \<^verbatim>\<open>findOne\<close> before the other has saved, so both
  find the request pending, both save it as accepted and both are answered with success;
  neither is answered not-found. The friends arrays still hold each other exactly once.
  Run one after the other, the second accept is answered 404.
\<close>

theorem concurrent_double_accept_both_succeed:
  "accept_interleaved [False, True, False, True, False, True, False, True]
     bob ''r1'' 2 bob ''r1'' 3 (db_pending, AcceptStart, AcceptStart) =
     (db_friends\<lparr>requests := [request1\<lparr>req_status := Accepted, req_updatedAt := 3\<rparr>]\<rparr>,
      AcceptDone (Inr (request1\<lparr>req_status := Accepted, req_updatedAt := 2\<rparr>)),
      AcceptDone (Inr (request1\<lparr>req_status := Accepted, req_updatedAt := 3\<rparr>))) \<and>
   accept_interleaved [False, False, False, False, True, True, True, True]
     bob ''r1'' 2 bob ''r1'' 3 (db_pending, AcceptStart, AcceptStart) =
     (db_friends,
      AcceptDone (Inr (request1\<lparr>req_status := Accepted, req_updatedAt := 2\<rparr>)),
      AcceptDone (Inl (Err 404 ''Friend request not found'')))"
  by (simp add: friends_defs sample_defs)


subsection \<open>Messages and conversations\<close>

lemma update_many_nth:
  "i < length docs \<Longrightarrow> update_many p f docs ! i = (if p (docs ! i) then f (docs ! i) else docs ! i)"
  by (simp add: update_many_def)

lemma length_update_many: "length (update_many p f docs) = length docs"
  by (simp add: update_many_def)

lemma filter_update_many_away:
  "(\<And>x. p x \<Longrightarrow> \<not> q (f x)) \<Longrightarrow> (\<And>x. \<not> p x \<Longrightarrow> q x = r x) \<Longrightarrow> (\<And>x. p x \<Longrightarrow> \<not> r x) \<Longrightarrow>
   length (filter q (update_many p f docs)) = length (filter r docs)"
  by (induction docs) (auto simp: update_many_def)


lemma fetch_conversation_run:
  assumes me: "findById (users d) (uid me) = Some u"
    and fr: "other \<in> set (friends u)"
    and found: "find_conversation (messages d) (uid me) other (or_default limit 50)
       ((or_default page 1 - 1) * or_default limit 50) = Some found"
  shows "fetch_conversation d me other page limit now =
      (Inr \<lparr>page_messages = rev found, page_number = or_default page 1,
            page_limit = or_default limit 50,
            hasMore = (int (length (rev found)) = or_default limit 50)\<rparr>,
       d\<lparr>messages := update_many (\<lambda>m. sender m = other \<and> recipient m = uid me \<and> \<not> isRead m) (set_read now) (messages d)\<rparr>)"
  unfolding fetch_conversation_def Let_def using me fr found by simp

lemma update_many_member:
  "m \<in> set (update_many p f ms) \<Longrightarrow> \<exists>x \<in> set ms. m = (if p x then f x else x)"
  unfolding update_many_def by auto

lemma set_read_result:
  "m = (if sender x = other \<and> recipient x = me \<and> \<not> isRead x then set_read now x else x) \<Longrightarrow>
   sender m = other \<Longrightarrow> recipient m = me \<Longrightarrow> isRead m"
  by (cases "sender x = other \<and> recipient x = me \<and> \<not> isRead x") (simp_all add: set_read_def)

lemma update_many_all_read:
  "m \<in> set (update_many (\<lambda>m. sender m = other \<and> recipient m = me \<and> \<not> isRead m) (set_read now) ms) \<Longrightarrow>
   sender m = other \<Longrightarrow> recipient m = me \<Longrightarrow> isRead m"
  by (drule update_many_member) (blast intro: set_read_result)

lemma unread_after_update_many:
  "length (filter (\<lambda>m. recipient m = me \<and> \<not> isRead m)
     (update_many (\<lambda>m. sender m = other \<and> recipient m = me \<and> \<not> isRead m) (set_read now) ms)) =
   length (filter (\<lambda>m. recipient m = me \<and> sender m \<noteq> other \<and> \<not> isRead m) ms)"
  by (rule filter_update_many_away) (auto simp: set_read_def)


text \<open>
  C4. For every call of fetchConversation by A for B with B in A's friends array (the
  requested window starting at a non-negative offset, as it does for every page number and
  limit of at least 1): the call succeeds; every message from B to A that was unread is
  afterwards the same message with isRead true and readAt the time of the call, whichever
  page was asked for; every other message (from A to B, already read, or involving other
  users) is unchanged; no message from B to A is unread afterwards, and A's unread count is
  the number of unread messages to A that do not come from B.
\<close>

theorem fetch_conversation_marks_all_read:
  assumes me: "findById (users d) (uid me) = Some u"
    and fr: "other \<in> set (friends u)"
    and skip: "0 \<le> (or_default page 1 - 1) * or_default limit 50"
  shows "\<exists>pg d'. fetch_conversation d me other page limit now = (Inr pg, d') \<and>
     length (messages d') = length (messages d) \<and>
     (\<forall>i < length (messages d).
        messages d' ! i =
          (if sender (messages d ! i) = other \<and> recipient (messages d ! i) = uid me \<and>
              \<not> isRead (messages d ! i)
           then (messages d ! i)\<lparr>isRead := True, readAt := Some now\<rparr>
           else messages d ! i)) \<and>
     (\<forall>m \<in> set (messages d'). sender m = other \<and> recipient m = uid me \<longrightarrow> isRead m) \<and>
     unread_count d' me =
       length (filter (\<lambda>m. recipient m = uid me \<and> sender m \<noteq> other \<and> \<not> isRead m) (messages d)) \<and>
     users d' = users d \<and> requests d' = requests d"
proof -
  let ?p = "\<lambda>m. sender m = other \<and> recipient m = uid me \<and> \<not> isRead m"
  let ?ms = "update_many ?p (set_read now) (messages d)"
  let ?d' = "d\<lparr>messages := ?ms\<rparr>"
  obtain found where found:
    "find_conversation (messages d) (uid me) other (or_default limit 50)
       ((or_default page 1 - 1) * or_default limit 50) = Some found"
    using skip by (simp add: find_conversation_def)
  have run: "\<exists>pg. fetch_conversation d me other page limit now = (Inr pg, ?d')"
    using fetch_conversation_run [OF me fr found] by blast
  have len: "length (messages ?d') = length (messages d)"
    by (simp add: length_update_many)
  have nth: "\<forall>i < length (messages d). messages ?d' ! i =
      (if ?p (messages d ! i) then (messages d ! i)\<lparr>isRead := True, readAt := Some now\<rparr>
       else messages d ! i)"
    by (simp add: update_many_nth set_read_def)
  have allread: "\<forall>m \<in> set (messages ?d'). sender m = other \<and> recipient m = uid me \<longrightarrow> isRead m"
    using update_many_all_read [of _ other "uid me" now "messages d"] by simp
  have cnt: "unread_count ?d' me =
      length (filter (\<lambda>m. recipient m = uid me \<and> sender m \<noteq> other \<and> \<not> isRead m) (messages d))"
    unfolding unread_count_def using unread_after_update_many [of "uid me" other now "messages d"] by simp
  have frame: "users ?d' = users d \<and> requests ?d' = requests d"
    by simp
  from run len nth allread cnt frame show ?thesis
    by blast
qed


lemmas chat_defs = alice_c_def bob_c_def carol_def unread_text_def msg1_def msg2_def msg3_def
  msg4_def db_chat_def alice_def bob_def

lemmas messages_defs = fetch_conversation_def find_conversation_def or_default_def
  newest_first_def between_def update_many_def set_read_def findById_def find_one_def Let_def
  unread_count_def

theorem fetch_conversation_marks_all_read_witness:
  "findById (users db_chat) (uid alice_c) = Some alice_c \<and> ''u2'' \<in> set (friends alice_c) \<and>
   0 \<le> (or_default (Some 2) 1 - 1) * or_default (Some 1) 50 \<and>
   fetch_conversation db_chat alice_c ''u2'' (Some 2) (Some 1) 99 =
     (Inr \<lparr>page_messages = [msg2], page_number = 2, page_limit = 1, hasMore = True\<rparr>,
      db_chat\<lparr>messages := [msg1\<lparr>isRead := True, readAt := Some 99\<rparr>, msg2,
                             msg3\<lparr>isRead := True, readAt := Some 99\<rparr>, msg4]\<rparr>) \<and>
   unread_count db_chat alice_c = 3 \<and>
   unread_count (snd (fetch_conversation db_chat alice_c ''u2'' (Some 2) (Some 1) 99)) alice_c = 1"
proof -
  have me: "findById (users db_chat) (uid alice_c) = Some alice_c"
    by (simp add: chat_defs findById_def find_one_def)
  have fr: "''u2'' \<in> set (friends alice_c)"
    by (simp add: chat_defs)
  have skip: "0 \<le> (or_default (Some 2) 1 - 1) * or_default (Some 1) 50"
    by (simp add: or_default_def)
  show ?thesis
    using me fr skip fetch_conversation_marks_all_read [OF me fr skip, of 99]
    by (simp add: chat_defs messages_defs)
qed

lemma fetch_conversation_negative_skip:
  "findById (users d) (uid me) = Some u \<Longrightarrow> other \<in> set (friends u) \<Longrightarrow>
   (or_default page 1 - 1) * or_default limit 50 < 0 \<Longrightarrow>
   fetch_conversation d me other page limit now = (Inl (Err 500 ''Server error''), d)"
  by (simp add: fetch_conversation_def find_conversation_def Let_def)

lemma group_stage_keys_aux:
  "set ks \<subseteq> counterpart u ` set ms \<Longrightarrow>
   map fst (concat (map (\<lambda>k. case filter (\<lambda>m. counterpart u m = k) ms of
                         [] \<Rightarrow> []
                       | first # rest \<Rightarrow>
                           [(k, first,
                             length (filter (\<lambda>m. recipient m = u \<and> \<not> isRead m) (first # rest)))]) ks)) = ks"
proof (induction ks)
  case Nil
  then show ?case by simp
next
  case (Cons k ks)
  then obtain m where "m \<in> set ms" "counterpart u m = k" by auto
  then have "filter (\<lambda>m. counterpart u m = k) ms \<noteq> []"
    by (auto simp: filter_empty_conv)
  then obtain first rest where "filter (\<lambda>m. counterpart u m = k) ms = first # rest"
    by (cases "filter (\<lambda>m. counterpart u m = k) ms") auto
  with Cons show ?case by simp
qed

lemma group_stage_keys: "map fst (group_stage u ms) = remdups (map (counterpart u) ms)"
  unfolding group_stage_def by (rule group_stage_keys_aux) auto

lemma group_stage_member:
  assumes "(k, m, n) \<in> set (group_stage u ms)"
  shows "\<exists>rest. filter (\<lambda>x. counterpart u x = k) ms = m # rest \<and>
          n = length (filter (\<lambda>x. recipient x = u \<and> \<not> isRead x) (m # rest))"
proof -
  from assms obtain k' where
    mem: "(k, m, n) \<in> set (case filter (\<lambda>x. counterpart u x = k') ms of
                         [] \<Rightarrow> []
                       | first # rest \<Rightarrow>
                           [(k', first,
                             length (filter (\<lambda>x. recipient x = u \<and> \<not> isRead x) (first # rest)))])"
    unfolding group_stage_def by auto
  show ?thesis
  proof (cases "filter (\<lambda>x. counterpart u x = k') ms")
    case Nil
    with mem show ?thesis by simp
  next
    case (Cons first rest)
    with mem have "k = k'" "m = first"
      "n = length (filter (\<lambda>x. recipient x = u \<and> \<not> isRead x) (first # rest))"
      by simp_all
    with Cons show ?thesis by blast
  qed
qed

lemma filter_uid_distinct:
  "distinct (map uid us) \<Longrightarrow> findById us k = Some x \<Longrightarrow> filter (\<lambda>y. uid y = k) us = [x]"
proof (induction us)
  case Nil
  then show ?case by (simp add: findById_def find_one_def)
next
  case (Cons a us)
  show ?case
  proof (cases "uid a = k")
    case True
    then have "x = a" using Cons.prems(2) by (simp add: findById_def find_one_def)
    moreover have "uid y \<noteq> k" if "y \<in> set us" for y
      using Cons.prems(1) True that by (metis distinct.simps(2) image_eqI list.simps(9) set_map)
    then have "filter (\<lambda>y. uid y = k) us = []"
      by (simp add: filter_empty_conv)
    ultimately show ?thesis using True by simp
  next
    case False
    then show ?thesis using Cons by (simp add: findById_def find_one_def)
  qed
qed

lemma findById_Some: "findById us k = Some x \<Longrightarrow> x \<in> set us \<and> uid x = k"
  unfolding findById_def find_one_def by (auto simp: find_Some_iff)

lemma lookup_unwind_keys:
  "distinct (map uid us) \<Longrightarrow> \<forall>g \<in> set groups. findById us (fst g) \<noteq> None \<Longrightarrow>
   map fst (lookup_unwind_stage us groups) = map fst groups"
proof (induction groups)
  case Nil
  then show ?case by (simp add: lookup_unwind_stage_def)
next
  case (Cons g groups)
  obtain k m n where g: "g = (k, m, n)" by (cases g)
  with Cons.prems(2) obtain x where "findById us k = Some x" by auto
  then have "filter (\<lambda>y. uid y = k) us = [x]"
    using Cons.prems(1) by (rule filter_uid_distinct[rotated])
  with Cons g show ?case by (simp add: lookup_unwind_stage_def)
qed

lemma lookup_unwind_member:
  "(k, m, n, x) \<in> set (lookup_unwind_stage us groups) \<Longrightarrow>
   (k, m, n) \<in> set groups \<and> x \<in> set us \<and> uid x = k"
  unfolding lookup_unwind_stage_def by auto

lemma findById_distinct:
  "distinct (map uid us) \<Longrightarrow> x \<in> set us \<Longrightarrow> findById us (uid x) = Some x"
  by (induction us) (auto simp: findById_def find_one_def)

lemma involves_counterpart:
  "((sender m = u \<or> recipient m = u) \<and> counterpart u m = k) = between u k m"
  by (auto simp: counterpart_def between_def)

lemma unread_from_counterpart:
  "((sender m = u \<or> recipient m = u) \<and> counterpart u m = k \<and> recipient m = u \<and> \<not> isRead m) =
   (recipient m = u \<and> sender m = k \<and> \<not> isRead m)"
  by (auto simp: counterpart_def)

lemma length_filter_newest_first:
  "length (filter p (newest_first ms)) = length (filter p ms)"
  by (simp add: newest_first_def filter_sort)

lemma set_newest_first: "set (newest_first ms) = set ms"
  by (simp add: newest_first_def)

lemma newest_first_group_head:
  assumes "filter p (newest_first ms) = m # rest" and "m' \<in> set ms" and "p m'"
  shows "createdAt m' \<le> createdAt m"
proof -
  have "sorted (map (\<lambda>m. - createdAt m) (filter p (newest_first ms)))"
    unfolding newest_first_def by (simp add: sorted_filter)
  then have "\<forall>y \<in> set rest. - createdAt m \<le> - createdAt y"
    using assms(1) by simp
  moreover have "m' \<in> set (m # rest)"
  proof -
    have "m' \<in> set (filter p (newest_first ms))"
      using assms(2,3) by (simp add: set_newest_first)
    then show ?thesis using assms(1) by simp
  qed
  ultimately show ?thesis by auto
qed

lemma distinct_map_sort_key: "distinct (map f (sort_key g xs)) = distinct (map f xs)"
  by (simp add: distinct_map)

lemma sorted_desc_sort_key:
  "sorted_wrt (\<lambda>a b. (f b :: int) \<le> f a) (sort_key (\<lambda>c. - f c) xs)"
proof -
  have "sorted (map (\<lambda>c. - f c) (sort_key (\<lambda>c. - f c) xs))"
    by (rule sorted_sort_key)
  then show ?thesis by (simp add: sorted_map)
qed


text \<open>
  C6. For every user U (user ids unique in the directory, and every counterpart of U's
  messages a user of the directory): listConversations(U) has exactly one entry per
  counterpart with whom U has exchanged a message; each entry carries the brief of that
  counterpart's user document, a message between the pair that no other message between
  them is newer than, and as unreadCount the number of unread messages addressed to U from
  the counterpart; and the entries are in descending order of their last message's time.
\<close>

theorem list_conversations_summary:
  assumes ids: "distinct (map uid (users d))"
    and known: "\<forall>m \<in> set (messages d). sender m = uid me \<or> recipient m = uid me \<longrightarrow>
                 findById (users d) (counterpart (uid me) m) \<noteq> None"
  shows "distinct (map conv_id (list_conversations d me)) \<and>
     set (map conv_id (list_conversations d me)) =
       counterpart (uid me) ` {m \<in> set (messages d). sender m = uid me \<or> recipient m = uid me} \<and>
     (\<forall>c \<in> set (list_conversations d me).
        (\<exists>x. findById (users d) (conv_id c) = Some x \<and>
           conv_user c = \<lparr>cu_id = uid x, cu_username = username x, cu_avatar = avatar x,
                           cu_status = status x, cu_lastSeen = lastSeen x\<rparr>) \<and>
        (\<exists>m \<in> set (messages d). between (uid me) (conv_id c) m \<and>
           lastMessage c = \<lparr>lm_content = content m, lm_createdAt = createdAt m,
                             lm_sender = sender m\<rparr> \<and>
           (\<forall>m' \<in> set (messages d). between (uid me) (conv_id c) m' \<longrightarrow>
              createdAt m' \<le> createdAt m)) \<and>
        unreadCount c =
          length (filter (\<lambda>m. recipient m = uid me \<and> sender m = conv_id c \<and> \<not> isRead m)
                    (messages d))) \<and>
     sorted_wrt (\<lambda>a b. lm_createdAt (lastMessage b) \<le> lm_createdAt (lastMessage a))
       (list_conversations d me)"
proof -
  let ?u = "uid me"
  let ?M = "match_stage ?u (messages d)"
  let ?S = "newest_first ?M"
  let ?G = "group_stage ?u ?S"
  let ?L = "lookup_unwind_stage (users d) ?G"
  let ?P = "map project_stage ?L"
  have R: "list_conversations d me = sort_key (\<lambda>c. - lm_createdAt (lastMessage c)) ?P"
    by (simp add: list_conversations_def)
  have setS: "set ?S = {m \<in> set (messages d). sender m = ?u \<or> recipient m = ?u}"
    by (auto simp: set_newest_first match_stage_def)
  have Gkeys: "map fst ?G = remdups (map (counterpart ?u) ?S)"
    by (rule group_stage_keys)
  have Gknown: "\<forall>g \<in> set ?G. findById (users d) (fst g) \<noteq> None"
  proof
    fix g assume "g \<in> set ?G"
    then have "fst g \<in> set (map fst ?G)" by simp
    then have "fst g \<in> counterpart ?u ` set ?S" unfolding Gkeys by simp
    then show "findById (users d) (fst g) \<noteq> None"
      using known setS by auto
  qed
  have conv_fst: "conv_id (project_stage g) = fst g" for g
    by (cases g) (simp add: project_stage_def)
  have Pkeys: "map conv_id ?P = map fst ?G"
    using lookup_unwind_keys [OF ids Gknown] by (simp add: conv_fst comp_def)
  have dist: "distinct (map conv_id (list_conversations d me))"
    unfolding R distinct_map_sort_key Pkeys Gkeys by simp
  have keys: "set (map conv_id (list_conversations d me)) = counterpart ?u ` set ?S"
  proof -
    have "set (map conv_id (list_conversations d me)) = set (map conv_id ?P)"
      unfolding R by (simp only: set_map set_sort)
    then show ?thesis unfolding Pkeys Gkeys by simp
  qed
  have entry: "(\<exists>x. findById (users d) (conv_id c) = Some x \<and>
           conv_user c = \<lparr>cu_id = uid x, cu_username = username x, cu_avatar = avatar x,
                           cu_status = status x, cu_lastSeen = lastSeen x\<rparr>) \<and>
        (\<exists>m \<in> set (messages d). between ?u (conv_id c) m \<and>
           lastMessage c = \<lparr>lm_content = content m, lm_createdAt = createdAt m,
                             lm_sender = sender m\<rparr> \<and>
           (\<forall>m' \<in> set (messages d). between ?u (conv_id c) m' \<longrightarrow>
              createdAt m' \<le> createdAt m)) \<and>
        unreadCount c =
          length (filter (\<lambda>m. recipient m = ?u \<and> sender m = conv_id c \<and> \<not> isRead m)
                    (messages d))"
    if c: "c \<in> set (list_conversations d me)" for c
  proof -
    from c have "c \<in> set ?P" unfolding R by simp
    then obtain k m n x where L: "(k, m, n, x) \<in> set ?L" and cdef: "c = project_stage (k, m, n, x)"
      by auto
    from lookup_unwind_member [OF L] have G: "(k, m, n) \<in> set ?G" and x: "x \<in> set (users d)" "uid x = k"
      by simp_all
    from group_stage_member [OF G] obtain rest where
      grp: "filter (\<lambda>y. counterpart ?u y = k) ?S = m # rest" and
      n: "n = length (filter (\<lambda>y. recipient y = ?u \<and> \<not> isRead y) (m # rest))"
      by blast
    have ck: "conv_id c = k" by (simp add: cdef project_stage_def)
    have find: "findById (users d) k = Some x"
      using findById_distinct [OF ids x(1)] x(2) by simp
    have brief: "conv_user c = \<lparr>cu_id = uid x, cu_username = username x, cu_avatar = avatar x,
                           cu_status = status x, cu_lastSeen = lastSeen x\<rparr>"
      by (simp add: cdef project_stage_def)
    have "m \<in> set (filter (\<lambda>y. counterpart ?u y = k) ?S)" unfolding grp by simp
    then have mS: "m \<in> set ?S" and mk: "counterpart ?u m = k" by simp_all
    from mS have mmsg: "m \<in> set (messages d)" and minv: "sender m = ?u \<or> recipient m = ?u"
      unfolding setS by simp_all
    have mbetween: "between ?u k m"
      using minv mk involves_counterpart [of m ?u k] by simp
    have last: "lastMessage c = \<lparr>lm_content = content m, lm_createdAt = createdAt m,
                             lm_sender = sender m\<rparr>"
      by (simp add: cdef project_stage_def)
    have newest: "createdAt m' \<le> createdAt m"
      if "m' \<in> set (messages d)" "between ?u k m'" for m'
    proof -
      from that(2) have inv: "sender m' = ?u \<or> recipient m' = ?u" and k': "counterpart ?u m' = k"
        using involves_counterpart [of m' ?u k] by simp_all
      from that(1) inv have "m' \<in> set ?M" by (simp add: match_stage_def)
      from newest_first_group_head [OF grp this k'] show ?thesis .
    qed
    have "n = length (filter (\<lambda>y. recipient y = ?u \<and> \<not> isRead y)
                 (filter (\<lambda>y. counterpart ?u y = k) ?S))"
      using n grp by simp
    also have "\<dots> = length (filter (\<lambda>y. counterpart ?u y = k \<and> recipient y = ?u \<and> \<not> isRead y) ?M)"
      by (simp add: length_filter_newest_first conj_commute conj_left_commute)
    also have "\<dots> = length (filter (\<lambda>y. (sender y = ?u \<or> recipient y = ?u) \<and> counterpart ?u y = k \<and>
                                     recipient y = ?u \<and> \<not> isRead y) (messages d))"
      by (simp add: match_stage_def conj_commute conj_left_commute)
    also have "\<dots> = length (filter (\<lambda>y. recipient y = ?u \<and> sender y = k \<and> \<not> isRead y) (messages d))"
      by (simp only: unread_from_counterpart)
    finally have cnt: "unreadCount c =
        length (filter (\<lambda>y. recipient y = ?u \<and> sender y = k \<and> \<not> isRead y) (messages d))"
      by (simp add: cdef project_stage_def)
    show ?thesis
      unfolding ck using find brief mmsg mbetween last newest cnt by blast
  qed
  have sorted: "sorted_wrt (\<lambda>a b. lm_createdAt (lastMessage b) \<le> lm_createdAt (lastMessage a))
       (list_conversations d me)"
    unfolding R by (rule sorted_desc_sort_key)
  show ?thesis
    using dist keys setS entry sorted by simp
qed


theorem list_conversations_summary_witness:
  "distinct (map uid (users db_chat)) \<and>
   map (\<lambda>m. findById (users db_chat) (counterpart (uid alice_c) m)) (messages db_chat) =
     [Some bob_c, Some bob_c, Some bob_c, Some carol] \<and>
   map conv_id (list_conversations db_chat alice_c) = [''u3'', ''u2''] \<and>
   map unreadCount (list_conversations db_chat alice_c) = [1, 2] \<and>
   map (lm_content \<circ> lastMessage) (list_conversations db_chat alice_c) = [''yo'', ''again''] \<and>
   distinct (map conv_id (list_conversations db_chat alice_c)) \<and>
   sorted_wrt (\<lambda>a b. lm_createdAt (lastMessage b) \<le> lm_createdAt (lastMessage a))
     (list_conversations db_chat alice_c)"
proof -
  have ids: "distinct (map uid (users db_chat))"
    by (simp add: chat_defs)
  have known: "\<forall>m \<in> set (messages db_chat). sender m = uid alice_c \<or> recipient m = uid alice_c \<longrightarrow>
      findById (users db_chat) (counterpart (uid alice_c) m) \<noteq> None"
    by (simp add: chat_defs counterpart_def findById_def find_one_def)
  have run: "map conv_id (list_conversations db_chat alice_c) = [''u3'', ''u2''] \<and>
      map unreadCount (list_conversations db_chat alice_c) = [1, 2] \<and>
      map (lm_content \<circ> lastMessage) (list_conversations db_chat alice_c) = [''yo'', ''again'']"
    by (simp add: chat_defs list_conversations_def match_stage_def newest_first_def
        group_stage_def counterpart_def lookup_unwind_stage_def project_stage_def)
  have found: "map (\<lambda>m. findById (users db_chat) (counterpart (uid alice_c) m)) (messages db_chat) =
      [Some bob_c, Some bob_c, Some bob_c, Some carol]"
    by (simp add: chat_defs counterpart_def findById_def find_one_def)
  show ?thesis
    using ids found run list_conversations_summary [OF ids known]
    by blast
qed

subsection \<open>Presence and real-time delivery\<close>

text \<open>
  C5 (as stated, refuted). join(U,c1), join(U,c2), disconnect(c1): both joins broadcast
  online, and the disconnect of the superseded connection broadcasts offline and removes the
  entry of U, which pointed to c2.
\<close>

theorem stale_disconnect_broadcasts_offline:
  "emitted (disconnect ''c1'' (join ''c2'' ''u1'' (join ''c1'' ''u1'' server0))) =
     [Broadcast ''c1'' (user_online ''u1''), Broadcast ''c2'' (user_online ''u1''),
      Broadcast ''c1'' (user_offline ''u1'')] \<and>
   connectedUsers (disconnect ''c1'' (join ''c2'' ''u1'' (join ''c1'' ''u1'' server0))) ''u1'' = None"
  by (simp add: disconnect_def join_def server0_def)

text \<open>
  C5 (amended). For a non-empty identity U: join(U,c1) followed by disconnect(c1) emits
  exactly one online broadcast and then exactly one offline broadcast, and U has no entry
  afterwards. Every join broadcasts online: join(U,c1), join(U,c2) emits two online
  broadcasts, one from each connection, and no offline broadcast, and U is routed to c2; a
  following disconnect(c2) emits one offline broadcast and removes the entry.
\<close>

theorem presence_broadcasts:
  "U \<noteq> [] \<Longrightarrow>
   emitted (disconnect c1 (join c1 U s)) =
     emitted s @ [Broadcast c1 (user_online U), Broadcast c1 (user_offline U)] \<and>
   connectedUsers (disconnect c1 (join c1 U s)) U = None \<and>
   emitted (join c2 U (join c1 U s)) =
     emitted s @ [Broadcast c1 (user_online U), Broadcast c2 (user_online U)] \<and>
   connectedUsers (join c2 U (join c1 U s)) U = Some c2 \<and>
   emitted (disconnect c2 (join c2 U (join c1 U s))) =
     emitted s @ [Broadcast c1 (user_online U), Broadcast c2 (user_online U),
                  Broadcast c2 (user_offline U)] \<and>
   connectedUsers (disconnect c2 (join c2 U (join c1 U s))) U = None"
  by (simp add: disconnect_def join_def)

theorem presence_broadcasts_witness:
  "''u1'' \<noteq> [] \<and>
   emitted (disconnect ''c1'' (join ''c1'' ''u1'' server0)) =
     [Broadcast ''c1'' (user_online ''u1''), Broadcast ''c1'' (user_offline ''u1'')] \<and>
   emitted (join ''c2'' ''u1'' (join ''c1'' ''u1'' server0)) =
     [Broadcast ''c1'' (user_online ''u1''), Broadcast ''c2'' (user_online ''u1'')] \<and>
   emitted (disconnect ''c2'' (join ''c2'' ''u1'' (join ''c1'' ''u1'' server0))) =
     [Broadcast ''c1'' (user_online ''u1''), Broadcast ''c2'' (user_online ''u1''),
      Broadcast ''c2'' (user_offline ''u1'')]"
  using presence_broadcasts [of "''u1''" "''c1''" server0 "''c2''"]
  by (simp add: server0_def)

text \<open>
  C1 (the code at the failing input). Alice and Bob are not friends and the store holds
  no message; the durable send path refuses Alice's message to Bob with 403. Bob is
  connected as c2. A \<^verbatim>\<open>send_message\<close> event from any connection c1 (it has not even
  joined), naming Bob as recipient and Alice as sender, makes the server emit
  \<^verbatim>\<open>receive_message\<close> to Bob's connection. The handler has no access to the store:
  nothing is checked and nothing is persisted.
\<close>

theorem socket_send_bypasses_gateway:
  "\<not> is_friend db0 ''u1'' ''u2'' \<and> \<not> is_friend db0 ''u2'' ''u1'' \<and> messages db0 = [] \<and>
   send_message db0 alice (Some ''u2'') (Some ''hello'') None ''m1'' 5 =
     (Inl (Err 403 ''You can only send messages to your friends''), db0) \<and>
   emitted (on_send_message ''c1''
              \<lparr>data_recipientId = ''u2'', data_message = ''hello'', data_senderId = ''u1''\<rparr> 5
              (join ''c2'' ''u2'' server0)) =
     [Broadcast ''c2'' (user_online ''u2''), To ''c2'' (receive_message ''u1'' ''hello'' 5)]"
  by (simp add: is_friend_def findById_def find_one_def send_message_def on_send_message_def
      join_def server0_def sample_defs)

subsection \<open>User search\<close>

lemma search_users_short_query:
  "length (trim q) < 2 \<Longrightarrow>
   search_users rx_valid rx_match d me (Some q) =
     Inl (Err 400 ''Search query must be at least 2 characters long'')"
  by (simp add: search_users_def)

lemma search_users_result:
  assumes "search_users rx_valid rx_match d me query = Inr ps"
  shows "length ps \<le> 20 \<and>
     (\<exists>q. query = Some q \<and> 2 \<le> length (trim q) \<and>
        ps = take 20 (map select_profile
               (filter (\<lambda>u. rx_match (trim q) (username u) \<and> uid u \<noteq> uid me) (users d)))) \<and>
     (\<forall>p \<in> set ps. p_id p \<noteq> uid me)"
proof -
  from assms obtain q where q: "query = Some q" "2 \<le> length (trim q)" and
    ps: "ps = take 20 (map select_profile
               (filter (\<lambda>u. rx_match (trim q) (username u) \<and> uid u \<noteq> uid me) (users d)))"
    by (auto simp: search_users_def split: option.splits if_splits)
  have "p_id p \<noteq> uid me" if "p \<in> set ps" for p
  proof -
    from that have "p \<in> set (map select_profile
               (filter (\<lambda>u. rx_match (trim q) (username u) \<and> uid u \<noteq> uid me) (users d)))"
      unfolding ps by (rule in_set_takeD)
    then show ?thesis by (auto simp: select_profile_def)
  qed
  with q ps show ?thesis by simp
qed

text \<open>
  C9 (the code at the failing input). The trimmed query is handed to the storage engine
  as a regular expression, not as a text to be found. With a regular-expression matcher for
  which the pattern \<^verbatim>\<open>a.c\<close> matches \<^verbatim>\<open>abc\<close> (the dot stands for any character), the
  search for \<^verbatim>\<open>a.c\<close> returns the user named abc, whose name does not contain the
  query.
\<close>

theorem search_query_is_a_pattern:
  "rx_valid ''a.c'' \<Longrightarrow> rx_match ''a.c'' ''abc'' \<Longrightarrow>
   search_users rx_valid rx_match db_search alice (Some ''a.c'') = Inr [select_profile abc] \<and>
   \<not> contains_ci ''a.c'' ''abc''"
  by (simp add: search_users_def trim_def is_space_def db_search_def alice_def abc_def eq_ci_def)

theorem search_query_is_a_pattern_witness:
  "dots_match ''a.c'' ''abc'' \<and>
   search_users (\<lambda>p. True) dots_match db_search alice (Some ''a.c'') = Inr [select_profile abc] \<and>
   \<not> contains_ci ''a.c'' ''abc''"
proof -
  have m: "dots_match ''a.c'' ''abc''"
    by (simp add: eq_ci_def)
  show ?thesis
    using m search_query_is_a_pattern [of "\<lambda>p. True" dots_match, OF TrueI m]
    by simp
qed

end
